theory Spec2Isabelle
  imports Complex_Main "HOL-Library.Log_Nat" "HOL-Library.Multiset"
begin

section \<open>Python values used by the challenge scorer\<close>

subsection \<open>Exceptions\<close>

text \<open>
  The exceptions the operations of the two methods can raise: \<open>next\<close> on an
  exhausted generator, \<open>/\<close> with a zero divisor, \<open>/\<close> on integers whose
  quotient exceeds the range of a float, and \<open>random.choice\<close> on an empty sequence.
\<close>

datatype error = StopIteration | ZeroDivisionError | OverflowError | IndexError

subsection \<open>Lists\<close>

text \<open>
  \<open>sys.maxsize\<close> on a 64-bit build of CPython: no list is longer.
\<close>

definition sys_maxsize :: nat where
  "sys_maxsize = 2 ^ 63 - 1"

subsection \<open>Floats\<close>

text \<open>
  A Python float is an IEEE 754 binary64 number. Every float that occurs in the scorer
  is finite and non-negative, so a float is represented by its exact value, a rational
  number, and every operation rounds the exact result to the nearest binary64 value,
  ties to even (the only rounding mode Python uses).

  \<open>pow2 k\<close> is \<open>2\<close> to the power \<open>k\<close> for an integer \<open>k\<close>;
  \<open>floor_log2 x\<close> is the binary exponent of a positive \<open>x\<close>;
  \<open>binary64_exponent x\<close> is the exponent of the last of the 53 significant bits of
  \<open>x\<close>, and \<open>- 1074\<close> in the subnormal range;
  \<open>binary64 x\<close> rounds \<open>x\<close> to a multiple of \<open>2\<close> to that exponent.
  The exponent is not bounded above here: the one operation of the scorer that can leave
  the range of the finite floats, integer division, checks the bound itself.
\<close>

definition pow2 :: "int \<Rightarrow> rat" where
  "pow2 k = (if 0 \<le> k then 2 ^ nat k else 1 / 2 ^ nat (- k))"

definition round_half_even :: "rat \<Rightarrow> int" where
  "round_half_even x =
     (let f = \<lfloor>x\<rfloor>; d = x - of_int f
      in if d < 1 / 2 then f
         else if 1 / 2 < d then f + 1
         else if even f then f else f + 1)"

definition floor_log2 :: "rat \<Rightarrow> int" where
  "floor_log2 x =
     (let (n, d) = quotient_of x; k = bitlen n - bitlen d
      in if x < pow2 k then k - 1 else k)"

definition binary64_exponent :: "rat \<Rightarrow> int" where
  "binary64_exponent x = max (floor_log2 \<bar>x\<bar> - 52) (- 1074)"

definition binary64 :: "rat \<Rightarrow> rat" where
  "binary64 x =
     (if x = 0 then 0
      else let e = binary64_exponent x
           in of_int (round_half_even (x / pow2 e)) * pow2 e)"

text \<open>
  \<open>a / b\<close> on two Python integers: the correctly rounded quotient, ZeroDivisionError
  for a zero divisor, OverflowError when the rounded quotient is not a finite float.
\<close>

definition true_div :: "int \<Rightarrow> int \<Rightarrow> error + rat" where
  "true_div a b =
     (if b = 0 then Inl ZeroDivisionError
      else let q = binary64 (of_int a / of_int b)
           in if 2 ^ 1024 \<le> \<bar>q\<bar> then Inl OverflowError else Inr q)"

text \<open>Float multiplication and addition, and a decimal literal read as a float.\<close>

definition fmul :: "rat \<Rightarrow> rat \<Rightarrow> rat" where
  "fmul a b = binary64 (a * b)"

definition fadd :: "rat \<Rightarrow> rat \<Rightarrow> rat" where
  "fadd a b = binary64 (a + b)"

definition float_literal :: "rat \<Rightarrow> rat" where
  "float_literal d = binary64 d"

text \<open>
  \<open>round(x, 2)\<close>: CPython converts \<open>x\<close> to the decimal with two fractional digits
  nearest to its exact value (ties to even) and reads that decimal back as a float.
\<close>

definition round2 :: "rat \<Rightarrow> rat" where
  "round2 x = binary64 (of_int (round_half_even (x * 100)) / 100)"

subsection \<open>Strings\<close>

text \<open>
  \<open>str.lower\<close> on the ASCII range, which holds every difficulty of the catalog.
\<close>

definition lower_char :: "char \<Rightarrow> char" where
  "lower_char c =
     (let n = (of_char c :: nat) in if 65 \<le> n \<and> n \<le> 90 then char_of (n + 32) else c)"

definition lower :: "string \<Rightarrow> string" where
  "lower s = map lower_char s"

section \<open>The class \<open>LegacyJavaCodeChallenge\<close>\<close>

subsection \<open>Data\<close>

text \<open>
  A code sample is a dictionary with six fixed keys; the instance holds the list of
  samples and the dictionary of the three weights.
\<close>

record challenge =
  id' :: int
  name :: string
  difficulty :: string
  code :: string
  hints :: "string list"
  expected_requirements :: "string list"

record criteria =
  correct_requirements :: rat
  identified_bugs :: rat
  code_improvements :: rat

record legacy_java_code_challenge =
  code_samples :: "challenge list"
  evaluation_criteria :: criteria

definition calculator_code :: string where
  \<open>calculator_code =
     ''\<newline>'' @
     ''public class Calculator {\<newline>'' @
     ''    // Bug: No input validation\<newline>'' @
     ''    public double add(double a, double b) {\<newline>'' @
     ''        return a + b; // Bug: No overflow check\<newline>'' @
     ''    }\<newline>'' @
     ''    \<newline>'' @
     ''    public double subtract(double a, double b) {\<newline>'' @
     ''        return a - b; // Bug: No underflow check\<newline>'' @
     ''    }\<newline>'' @
     ''    \<newline>'' @
     ''    // Bug: Division by zero not handled\<newline>'' @
     ''    public double divide(double a, double b) {\<newline>'' @
     ''        return a / b;\<newline>'' @
     ''    }\<newline>'' @
     ''    \<newline>'' @
     ''    public double multiply(double a, double b) {\<newline>'' @
     ''        return a * b; // Bug: No overflow check\<newline>'' @
     ''    }\<newline>'' @
     ''    \<newline>'' @
     ''    // Bug: No documentation\<newline>'' @
     ''    public double power(double base, double exponent) {\<newline>'' @
     ''        return Math.pow(base, exponent); // Bug: No NaN/infinity checks\<newline>'' @
     ''    }\<newline>'' @
     ''}\<newline>'' @
     ''                ''\<close>

definition authentication_code :: string where
  \<open>authentication_code =
     ''\<newline>'' @
     ''public class AuthenticationService {\<newline>'' @
     ''    // Bug: Password check is case-insensitive (security issue)\<newline>'' @
     ''    private static final Map<String, String> VALID_USERS = Map.of(\<newline>'' @
     ''        "admin", "Secure123",\<newline>'' @
     ''        "user1", "Password1"\<newline>'' @
     ''    );\<newline>'' @
     ''\<newline>'' @
     ''    public boolean authenticateUser(String username, String password, String otp, boolean biometric) {\<newline>'' @
     ''        // Bug: No null checks for required parameters\<newline>'' @
     ''        if (!VALID_USERS.containsKey(username) || !VALID_USERS.get(username).equalsIgnoreCase(password)) {\<newline>'' @
     ''            return false; // Bug: Should log failed attempts\<newline>'' @
     ''        }\<newline>'' @
     ''\<newline>'' @
     ''        if (otp != null) {\<newline>'' @
     ''            // Bug: OTP validation missing timeout check\<newline>'' @
     ''            try {\<newline>'' @
     ''                int otpValue = Integer.parseInt(otp);\<newline>'' @
     ''                if (otpValue < 100000 || otpValue > 999999) {\<newline>'' @
     ''                    return false;\<newline>'' @
     ''                }\<newline>'' @
     ''            } catch (NumberFormatException e) {\<newline>'' @
     ''                return false; // Bug: Should log this error\<newline>'' @
     ''            }\<newline>'' @
     ''        }\<newline>'' @
     ''\<newline>'' @
     ''        if (biometric) {\<newline>'' @
     ''            // Bug: No actual biometric verification\<newline>'' @
     ''            return Math.random() > 0.1; // 10% failure rate\<newline>'' @
     ''        }\<newline>'' @
     ''\<newline>'' @
     ''        return true; // Bug: Should require at least 2FA for sensitive operations\<newline>'' @
     ''    }\<newline>'' @
     ''}\<newline>'' @
     ''                ''\<close>

definition load_java_code_samples :: "challenge list" where
  "load_java_code_samples =
     [\<lparr>id' = 1,
       name = ''Simple Calculator'',
       difficulty = ''Easy'',
       code = calculator_code,
       hints =
         [''Basic arithmetic operations'',
          ''Check for mathematical edge cases'',
          ''Consider numerical limitations''],
       expected_requirements =
         [''Addition with overflow check'',
          ''Subtraction with underflow check'',
          ''Division with zero check'',
          ''Multiplication with overflow check'',
          ''Power function with validation'',
          ''Input validation for all methods'',
          ''Proper method documentation'']\<rparr>,
      \<lparr>id' = 2,
       name = ''Multi-Layer Authentication System'',
       difficulty = ''Hard'',
       code = authentication_code,
       hints =
         [''Security system with multiple authentication layers'',
          ''Check for proper validation in each step'',
          ''Consider thread safety for the service''],
       expected_requirements =
         [''Case-sensitive password validation'',
          ''OTP should be 6 digits with timeout'',
          ''Proper biometric verification implementation'',
          ''Failed login attempt logging'',
          ''Minimum 2FA requirement for sensitive operations'',
          ''Null checks for required parameters'',
          ''Thread-safe implementation'']\<rparr>]"

definition init :: legacy_java_code_challenge where
  "init =
     \<lparr>code_samples = load_java_code_samples,
      evaluation_criteria =
        \<lparr>correct_requirements = float_literal (5 / 10),
         identified_bugs = float_literal (4 / 10),
         code_improvements = float_literal (1 / 10)\<rparr>\<rparr>"

subsection \<open>Selecting a challenge\<close>

text \<open>
  \<open>random.choice\<close> raises IndexError on an empty sequence and otherwise returns the
  element at an index drawn below the length. The draw \<open>r\<close> of the generator is an
  argument of the model, and the index is \<open>r mod length xs\<close>: every index below the
  length is reached by some draw, and no other.
\<close>

definition random_choice :: "nat \<Rightarrow> 'a list \<Rightarrow> error + 'a" where
  "random_choice r xs = (if xs = [] then Inl IndexError else Inr (xs ! (r mod length xs)))"

text \<open>The result \<open>None\<close> of the method is \<open>Inr None\<close>.\<close>

definition get_challenge_by_difficulty ::
  "legacy_java_code_challenge \<Rightarrow> nat \<Rightarrow> string \<Rightarrow> error + challenge option" where
  "get_challenge_by_difficulty self r difficulty' =
     (let filtered = filter (\<lambda>c. lower (difficulty c) = lower difficulty') (code_samples self)
      in if filtered \<noteq> []
         then (case random_choice r filtered of Inl e \<Rightarrow> Inl e | Inr c \<Rightarrow> Inr (Some c))
         else Inr None)"

subsection \<open>Scoring a response\<close>

text \<open>
  The three sub-scores are the local variables \<open>req_score\<close>, \<open>bug_score\<close> and
  \<open>imp_score\<close> of \<open>evaluate_response\<close>; \<open>req_matches\<close> counts the submitted
  entries that are members of the answer key, one for each entry of the submitted list.
\<close>

definition req_matches :: "challenge \<Rightarrow> string list \<Rightarrow> nat" where
  "req_matches challenge requirements =
     length (filter (\<lambda>req. req \<in> set (expected_requirements challenge)) requirements)"

definition req_score :: "challenge \<Rightarrow> string list \<Rightarrow> error + rat" where
  "req_score challenge requirements =
     true_div (int (req_matches challenge requirements))
       (int (length (expected_requirements challenge)))"

definition bug_score :: "string list \<Rightarrow> error + rat" where
  "bug_score bugs =
     (case true_div (int (length bugs)) 3 of Inl e \<Rightarrow> Inl e | Inr q \<Rightarrow> Inr (min 1 q))"

definition imp_score :: "string list \<Rightarrow> error + rat" where
  "imp_score improvements =
     (case true_div (int (length improvements)) 3 of Inl e \<Rightarrow> Inl e | Inr q \<Rightarrow> Inr (min 1 q))"

definition evaluate_response ::
  "legacy_java_code_challenge \<Rightarrow> int \<Rightarrow> string list \<Rightarrow> string list \<Rightarrow> string list
     \<Rightarrow> error + rat" where
  "evaluate_response self challenge_id requirements bugs improvements =
     (case find (\<lambda>c. id' c = challenge_id) (code_samples self) of
        None \<Rightarrow> Inl StopIteration
      | Some challenge \<Rightarrow>
          (case req_score challenge requirements of
             Inl e \<Rightarrow> Inl e
           | Inr req \<Rightarrow>
               (case bug_score bugs of
                  Inl e \<Rightarrow> Inl e
                | Inr bug \<Rightarrow>
                    (case imp_score improvements of
                       Inl e \<Rightarrow> Inl e
                     | Inr imp \<Rightarrow>
                         (let w = evaluation_criteria self;
                              total_score =
                                fadd
                                  (fadd (fmul req (correct_requirements w))
                                     (fmul bug (identified_bugs w)))
                                  (fmul imp (code_improvements w))
                          in Inr (round2 total_score))))))"

text \<open>
  The expression of \<open>total_score\<close> and its rounding, at the weights of the
  constructed instance: the value \<open>evaluate_response\<close> returns for three given
  sub-scores.
\<close>

definition weighted :: "rat \<Rightarrow> rat \<Rightarrow> rat \<Rightarrow> rat" where
  "weighted req bug imp =
     round2 (fadd (fadd (fmul req (float_literal (5 / 10))) (fmul bug (float_literal (4 / 10))))
               (fmul imp (float_literal (1 / 10))))"

section \<open>Rounding to binary64 is monotone\<close>

text \<open>
  Powers of two with integer exponents, the bounds that define the binary exponent,
  and monotonicity of rounding to the nearest integer and to the nearest float.
\<close>

lemma pow2_powi: "pow2 k = 2 powi k"
  by (simp add: pow2_def power_int_def inverse_eq_divide power_one_over)

lemma pow2_pos: "0 < pow2 k"
  by (simp add: pow2_powi)

lemma pow2_add: "pow2 (a + b) = pow2 a * pow2 b"
  by (simp add: pow2_powi power_int_add)

lemma pow2_mono: "a \<le> b \<Longrightarrow> pow2 a \<le> pow2 b"
  by (simp add: pow2_powi power_int_increasing)

lemma bitlen_pow2_bounds:
  assumes "0 < n"
  shows "pow2 (bitlen n - 1) \<le> of_int n \<and> of_int n < pow2 (bitlen n)"
proof -
  have b: "1 \<le> bitlen n" using assms by (simp add: bitlen_alt_def)
  have "2 ^ nat (bitlen n - 1) \<le> n" and "n < 2 ^ nat (bitlen n)"
    using bitlen_bounds[OF assms] by simp_all
  then have "(of_int (2 ^ nat (bitlen n - 1)) :: rat) \<le> of_int n"
    and "(of_int n :: rat) < of_int (2 ^ nat (bitlen n))"
    by (simp_all only: of_int_le_iff of_int_less_iff)
  then show ?thesis using b by (simp add: pow2_def)
qed

lemma floor_log2_bounds:
  assumes "0 < x"
  shows "pow2 (floor_log2 x) \<le> x" and "x < pow2 (floor_log2 x + 1)"
proof -
  obtain n d where q: "quotient_of x = (n, d)" by (cases "quotient_of x")
  have d: "0 < d" using q quotient_of_denom_pos by blast
  have x: "x = of_int n / of_int d" using q quotient_of_div by blast
  have n: "0 < n" using assms d x by (simp add: zero_less_divide_iff)
  define k where "k = bitlen n - bitlen d"
  have bn: "1 \<le> bitlen n" and bd: "1 \<le> bitlen d"
    using n d by (simp_all add: bitlen_alt_def)
  have n_lo: "pow2 (bitlen n - 1) \<le> of_int n" and n_hi: "of_int n < pow2 (bitlen n)"
    using bitlen_pow2_bounds[OF n] by simp_all
  have d_lo: "pow2 (bitlen d - 1) \<le> of_int d" and d_hi: "of_int d < pow2 (bitlen d)"
    using bitlen_pow2_bounds[OF d] by simp_all
  have dpos: "(0::rat) < of_int d" using d by simp
  have lo: "pow2 (k - 1) < x"
  proof -
    have "pow2 (k - 1) * of_int d < pow2 (k - 1) * pow2 (bitlen d)"
      using d_hi pow2_pos by simp
    also have "\<dots> = pow2 (bitlen n - 1)"
      by (simp add: k_def pow2_add[symmetric])
    also have "\<dots> \<le> of_int n" by (rule n_lo)
    finally show ?thesis using dpos by (simp add: x pos_less_divide_eq)
  qed
  have hi: "x < pow2 (k + 1)"
  proof -
    have "of_int n < pow2 (bitlen n)" by (rule n_hi)
    also have "\<dots> = pow2 (k + 1) * pow2 (bitlen d - 1)"
      by (simp add: k_def pow2_add[symmetric])
    also have "\<dots> \<le> pow2 (k + 1) * of_int d"
      using d_lo pow2_pos by simp
    finally show ?thesis using dpos by (simp add: x pos_divide_less_eq)
  qed
  have fl: "floor_log2 x = (if x < pow2 k then k - 1 else k)"
    by (simp add: floor_log2_def q k_def Let_def)
  show "pow2 (floor_log2 x) \<le> x" using lo by (simp add: fl)
  show "x < pow2 (floor_log2 x + 1)" using hi by (simp add: fl)
qed

lemma floor_log2_mono:
  assumes "0 < x" "x \<le> y"
  shows "floor_log2 x \<le> floor_log2 y"
proof (rule ccontr)
  assume "\<not> floor_log2 x \<le> floor_log2 y"
  then have "floor_log2 y + 1 \<le> floor_log2 x" by simp
  then have "pow2 (floor_log2 y + 1) \<le> pow2 (floor_log2 x)" by (rule pow2_mono)
  moreover have "y < pow2 (floor_log2 y + 1)" using assms by (intro floor_log2_bounds) simp
  moreover have "pow2 (floor_log2 x) \<le> x" using assms by (intro floor_log2_bounds)
  ultimately show False using assms by simp
qed

lemma round_half_even_cases:
  "round_half_even x = \<lfloor>x\<rfloor> \<or> round_half_even x = \<lfloor>x\<rfloor> + 1"
  by (simp add: round_half_even_def Let_def)

lemma round_half_even_of_int: "round_half_even (of_int n) = n"
  by (simp add: round_half_even_def)

lemma round_half_even_mono:
  assumes "x \<le> y"
  shows "round_half_even x \<le> round_half_even y"
proof (cases "\<lfloor>x\<rfloor> = \<lfloor>y\<rfloor>")
  case True
  then have "x - of_int \<lfloor>x\<rfloor> \<le> y - of_int \<lfloor>y\<rfloor>" using assms by simp
  then show ?thesis using True by (auto simp: round_half_even_def Let_def)
next
  case False
  then have "\<lfloor>x\<rfloor> + 1 \<le> \<lfloor>y\<rfloor>" using assms floor_mono[of x y] by simp
  then show ?thesis
    using round_half_even_cases[of x] round_half_even_cases[of y] by auto
qed

lemma round_half_even_ge: "of_int n \<le> x \<Longrightarrow> n \<le> round_half_even x"
  using round_half_even_mono[of "of_int n" x] by (simp add: round_half_even_of_int)

lemma round_half_even_le: "x \<le> of_int n \<Longrightarrow> round_half_even x \<le> n"
  using round_half_even_mono[of x "of_int n"] by (simp add: round_half_even_of_int)

lemma binary64_pos_eq:
  "0 < x \<Longrightarrow> binary64 x = of_int (round_half_even (x / pow2 (binary64_exponent x))) * pow2 (binary64_exponent x)"
  by (simp add: binary64_def binary64_exponent_def Let_def)

lemma binary64_mono_pos:
  assumes "0 < x" "x \<le> y"
  shows "binary64 x \<le> binary64 y"
proof -
  have y: "0 < y" using assms by simp
  have e: "binary64_exponent x \<le> binary64_exponent y"
    using floor_log2_mono[OF assms] assms by (simp add: binary64_exponent_def)
  show ?thesis
  proof (cases "binary64_exponent x = binary64_exponent y")
    case True
    have "x / pow2 (binary64_exponent y) \<le> y / pow2 (binary64_exponent y)"
      using assms(2) pow2_pos[of "binary64_exponent y"] by (intro divide_right_mono) simp_all
    then have "round_half_even (x / pow2 (binary64_exponent y)) \<le> round_half_even (y / pow2 (binary64_exponent y))"
      by (rule round_half_even_mono)
    then show ?thesis
      using pow2_pos[of "binary64_exponent y"] by (simp add: binary64_pos_eq assms y True)
  next
    case False
    then have lt: "binary64_exponent x < binary64_exponent y" using e by simp
    then have ey: "binary64_exponent y = floor_log2 y - 52" and ex: "floor_log2 x - 52 \<le> binary64_exponent x"
      using y assms by (auto simp: binary64_exponent_def)
    have "x < pow2 (floor_log2 x + 1)" using assms by (intro floor_log2_bounds)
    also have "\<dots> \<le> pow2 (binary64_exponent x + 53)" using ex by (intro pow2_mono) simp
    also have "\<dots> = pow2 53 * pow2 (binary64_exponent x)" by (simp add: pow2_add[of 53 "binary64_exponent x", symmetric] add.commute)
    finally have "x / pow2 (binary64_exponent x) \<le> pow2 53" using pow2_pos[of "binary64_exponent x"]
      by (simp add: pos_divide_le_eq)
    then have "x / pow2 (binary64_exponent x) \<le> of_int (2 ^ 53)" by (simp add: pow2_def)
    then have "round_half_even (x / pow2 (binary64_exponent x)) \<le> 2 ^ 53" by (rule round_half_even_le)
    then have "(of_int (round_half_even (x / pow2 (binary64_exponent x))) :: rat) \<le> of_int (2 ^ 53)"
      by (simp only: of_int_le_iff)
    then have "binary64 x \<le> of_int (2 ^ 53) * pow2 (binary64_exponent x)"
      using pow2_pos[of "binary64_exponent x"] by (simp add: binary64_pos_eq assms)
    also have "\<dots> = pow2 (binary64_exponent x + 53)" by (simp add: pow2_add) (simp add: pow2_def)
    also have "\<dots> \<le> pow2 (binary64_exponent y + 52)" using lt by (intro pow2_mono) simp
    finally have xb: "binary64 x \<le> pow2 (binary64_exponent y + 52)" .
    have "pow2 (binary64_exponent y + 52) = pow2 (floor_log2 y)" by (simp add: ey)
    also have "\<dots> \<le> y" using y by (intro floor_log2_bounds)
    finally have "pow2 52 * pow2 (binary64_exponent y) \<le> y" by (simp add: pow2_add mult.commute)
    then have "pow2 52 \<le> y / pow2 (binary64_exponent y)" using pow2_pos[of "binary64_exponent y"]
      by (simp add: pos_le_divide_eq)
    then have "of_int (2 ^ 52) \<le> y / pow2 (binary64_exponent y)" by (simp add: pow2_def)
    then have "2 ^ 52 \<le> round_half_even (y / pow2 (binary64_exponent y))" by (rule round_half_even_ge)
    then have "(of_int (2 ^ 52) :: rat) \<le> of_int (round_half_even (y / pow2 (binary64_exponent y)))"
      by (simp only: of_int_le_iff)
    then have "of_int (2 ^ 52) * pow2 (binary64_exponent y) \<le> binary64 y"
      using pow2_pos[of "binary64_exponent y"] by (simp add: binary64_pos_eq y)
    moreover have "of_int (2 ^ 52) * pow2 (binary64_exponent y) = pow2 (binary64_exponent y + 52)"
      by (simp add: pow2_add) (simp add: pow2_def)
    ultimately show ?thesis using xb by simp
  qed
qed

lemma binary64_nonneg: "0 \<le> x \<Longrightarrow> 0 \<le> binary64 x"
proof (cases "x = 0")
  case True
  then show ?thesis by (simp add: binary64_def)
next
  case False
  assume "0 \<le> x"
  then have x: "0 < x" using False by simp
  have "0 \<le> x / pow2 (binary64_exponent x)" using x pow2_pos[of "binary64_exponent x"] by simp
  then have "0 \<le> round_half_even (x / pow2 (binary64_exponent x))"
    using round_half_even_ge[of 0] by simp
  then show ?thesis using pow2_pos[of "binary64_exponent x"] by (simp add: binary64_pos_eq x)
qed

lemma binary64_mono: "0 \<le> x \<Longrightarrow> x \<le> y \<Longrightarrow> binary64 x \<le> binary64 y"
  using binary64_mono_pos[of x y] binary64_nonneg[of y] 
  by (cases "x = 0") (auto simp: binary64_def)

section \<open>Facts about the floats of the scorer\<close>

text \<open>
  Zero, one and \<open>2 ^ 63\<close> are floats, and the quotient of a list length by a
  positive integer is a finite float.
\<close>

lemma binary64_zero: "binary64 0 = 0"
  by (simp add: binary64_def)

lemma binary64_one: "binary64 1 = 1"
  by code_simp

lemma binary64_two_63: "binary64 (2 ^ 63) = 2 ^ 63"
  by code_simp

lemma true_div_nat:
  assumes "n \<le> sys_maxsize" "0 < d"
  shows "true_div (int n) (int d) = Inr (binary64 (of_nat n / of_nat d))"
proof -
  have n: "(of_nat n :: rat) \<le> 2 ^ 63"
  proof -
    have "n \<le> 2 ^ 63" using assms(1) by (simp add: sys_maxsize_def)
    then have "(of_nat n :: rat) \<le> of_nat (2 ^ 63)" by (simp only: of_nat_le_iff)
    then show ?thesis by simp
  qed
  have d: "(1 :: rat) \<le> of_nat d" using assms(2) by simp
  have q0: "(0 :: rat) \<le> of_nat n / of_nat d" by simp
  have "(of_nat n :: rat) / of_nat d \<le> of_nat n / 1"
    using d by (intro divide_left_mono) simp_all
  then have q: "(of_nat n :: rat) / of_nat d \<le> 2 ^ 63" using n by simp
  have "binary64 (of_nat n / of_nat d) \<le> binary64 (2 ^ 63)"
    using q0 q by (rule binary64_mono)
  also have "\<dots> = 2 ^ 63" by (rule binary64_two_63)
  also have "\<dots> < (2 :: rat) ^ 1024" by simp
  finally have hi: "binary64 (of_nat n / of_nat d) < 2 ^ 1024" .
  have lo: "0 \<le> binary64 (of_nat n / of_nat d)" using q0 by (rule binary64_nonneg)
  show ?thesis using hi lo assms(2) by (simp add: true_div_def Let_def)
qed

section \<open>Facts about the catalog\<close>

text \<open>
  The constructed instance holds two samples, with the ids 1 and 2 and seven expected
  requirements each; the generator of \<open>evaluate_response\<close> finds each sample by its id.
\<close>

lemma catalog_ids: "map id' (code_samples init) = [1, 2]"
  by (simp add: init_def load_java_code_samples_def)

lemma catalog_lengths: "map (\<lambda>c. length (expected_requirements c)) (code_samples init) = [7, 7]"
  by (simp add: init_def load_java_code_samples_def)

lemma catalog_two: "length (code_samples init) = 2"
  by (simp add: init_def load_java_code_samples_def)

lemma catalog_shape:
  obtains c1 c2 where "code_samples init = [c1, c2]"
  using catalog_two by (metis One_nat_def Suc_1 length_0_conv length_Suc_conv)

lemma catalog_find:
  assumes "c \<in> set (code_samples init)"
  shows "find (\<lambda>x. id' x = id' c) (code_samples init) = Some c"
proof -
  obtain c1 c2 where s: "code_samples init = [c1, c2]" by (rule catalog_shape)
  have "id' c1 = 1" "id' c2 = 2" using catalog_ids by (simp_all add: s)
  then show ?thesis using assms by (auto simp: s)
qed

lemma catalog_length:
  assumes "c \<in> set (code_samples init)"
  shows "length (expected_requirements c) = 7"
proof -
  obtain c1 c2 where s: "code_samples init = [c1, c2]" by (rule catalog_shape)
  have "length (expected_requirements c1) = 7" "length (expected_requirements c2) = 7"
    using catalog_lengths by (simp_all add: s)
  then show ?thesis using assms by (auto simp: s)
qed

section \<open>What \<open>evaluate_response\<close> computes on the catalog\<close>

text \<open>
  For a sample of the catalog and lists no longer than \<open>sys.maxsize\<close> no operation
  raises, and the result is the rounded weighted sum of the three quotients.
\<close>

lemma round2_zero: "round2 0 = 0"
  by (simp add: round2_def round_half_even_def binary64_zero)

lemma fmul_zero: "fmul 0 w = 0"
  by (simp add: fmul_def binary64_zero)

lemma fadd_zero: "fadd 0 0 = 0"
  by (simp add: fadd_def binary64_zero)

lemma req_matches_Nil: "req_matches c [] = 0"
  by (simp add: req_matches_def)

lemma req_score_catalog:
  assumes "c \<in> set (code_samples init)" "length rs \<le> sys_maxsize"
  shows "req_score c rs = Inr (binary64 (of_nat (req_matches c rs) / 7))"
proof -
  have "req_matches c rs \<le> length rs" by (simp add: req_matches_def)
  then have "req_matches c rs \<le> sys_maxsize" using assms(2) by simp
  then have "true_div (int (req_matches c rs)) (int 7)
               = Inr (binary64 (of_nat (req_matches c rs) / of_nat 7))"
    by (rule true_div_nat) simp
  then show ?thesis by (simp add: req_score_def catalog_length[OF assms(1)])
qed

lemma bug_score_eq:
  assumes "length bs \<le> sys_maxsize"
  shows "bug_score bs = Inr (min 1 (binary64 (of_nat (length bs) / 3)))"
proof -
  have "true_div (int (length bs)) (int 3) = Inr (binary64 (of_nat (length bs) / of_nat 3))"
    using assms by (rule true_div_nat) simp
  then show ?thesis by (simp add: bug_score_def)
qed

lemma imp_score_eq:
  assumes "length is \<le> sys_maxsize"
  shows "imp_score is = Inr (min 1 (binary64 (of_nat (length is) / 3)))"
proof -
  have "true_div (int (length is)) (int 3) = Inr (binary64 (of_nat (length is) / of_nat 3))"
    using assms by (rule true_div_nat) simp
  then show ?thesis by (simp add: imp_score_def)
qed

lemma evaluate_response_catalog:
  assumes "c \<in> set (code_samples init)"
    and "req_score c rs = Inr req" "bug_score bs = Inr bug" "imp_score is = Inr imp"
  shows "evaluate_response init (id' c) rs bs is = Inr (weighted req bug imp)"
proof -
  have w: "evaluation_criteria init =
      \<lparr>correct_requirements = float_literal (5 / 10), identified_bugs = float_literal (4 / 10),
       code_improvements = float_literal (1 / 10)\<rparr>"
    by (simp add: init_def)
  show ?thesis
    by (simp add: evaluate_response_def catalog_find[OF assms(1)] assms(2-4) w weighted_def)
qed

lemma weighted_zero: "weighted 0 0 0 = 0"
  by (simp add: weighted_def fmul_zero fadd_zero round2_zero)

section \<open>Totals at particular sub-scores\<close>

text \<open>
  The float operations evaluated at the sub-scores that the claims name.
\<close>

lemma weighted_full: "weighted 1 1 1 = 1"
  by code_simp

lemma two_thirds_below_one: "min 1 (binary64 (2 / 3)) = binary64 (2 / 3)"
  by code_simp

lemma one_third_below_one: "min 1 (binary64 (1 / 3)) = binary64 (1 / 3)"
  by code_simp

lemma weighted_4_2_1:
  "weighted (binary64 (4 / 7)) (binary64 (2 / 3)) (binary64 (1 / 3)) = float_literal (59 / 100)"
  by code_simp

lemma float_59_62: "float_literal (59 / 100) \<noteq> float_literal (62 / 100)"
  by code_simp

lemma weighted_1_0_0: "weighted (binary64 (1 / 7)) 0 0 = float_literal (7 / 100)"
  by code_simp

lemma weighted_2_0_0: "weighted (binary64 (2 / 7)) 0 0 = float_literal (14 / 100)"
  by code_simp

lemma float_7_14: "float_literal (7 / 100) \<noteq> float_literal (14 / 100)"
  by code_simp

lemma weighted_15_0_0: "weighted (binary64 (15 / 7)) 0 0 = float_literal (107 / 100)"
  by code_simp

lemma float_107: "1 < float_literal (107 / 100)"
  by code_simp

section \<open>Counting matches\<close>

text \<open>
  The count of matching requirements under appending and reordering, and the
  saturation of a quotient by three.
\<close>

lemma req_matches_all:
  "set rs \<subseteq> set (expected_requirements c) \<Longrightarrow> req_matches c rs = length rs"
  by (simp add: req_matches_def subset_iff)

lemma req_matches_append:
  "req_matches c (rs @ [r]) =
     (if r \<in> set (expected_requirements c) then req_matches c rs + 1 else req_matches c rs)"
  by (simp add: req_matches_def)

lemma mset_length_filter:
  "mset xs = mset ys \<Longrightarrow> length (filter P xs) = length (filter P ys)"
  by (metis mset_filter size_mset)

lemma req_matches_mset: "mset rs = mset rs' \<Longrightarrow> req_matches c rs = req_matches c rs'"
  unfolding req_matches_def by (rule mset_length_filter)

lemma binary64_ge_one: "1 \<le> x \<Longrightarrow> 1 \<le> binary64 x"
  using binary64_mono[of 1 x] by (simp add: binary64_one)

lemma saturated:
  assumes "3 \<le> length bs"
  shows "min 1 (binary64 (of_nat (length bs) / 3)) = 1"
proof -
  have "(3 :: rat) \<le> of_nat (length bs)" using assms by (metis of_nat_le_iff of_nat_numeral)
  then have "(1 :: rat) \<le> of_nat (length bs) / 3" by simp
  then have "1 \<le> binary64 (of_nat (length bs) / 3)" by (rule binary64_ge_one)
  then show ?thesis by simp
qed

section \<open>Concrete samples and strings\<close>

text \<open>
  The first sample of the catalog is the Simple Calculator, with the id 1; the lowered
  difficulties of the catalog are \<open>easy\<close> and \<open>hard\<close>.
\<close>

lemma catalog_hd: "hd (code_samples init) \<in> set (code_samples init)"
  using catalog_two by (cases "code_samples init") simp_all

lemma catalog_hd_id: "id' (hd (code_samples init)) = 1"
  using catalog_ids by (cases "code_samples init") simp_all

lemma catalog_hd_name: "name (hd (code_samples init)) = ''Simple Calculator''"
  by (simp add: init_def load_java_code_samples_def)

lemma catalog_hd_key:
  "expected_requirements (hd (code_samples init)) =
     [''Addition with overflow check'',
      ''Subtraction with underflow check'',
      ''Division with zero check'',
      ''Multiplication with overflow check'',
      ''Power function with validation'',
      ''Input validation for all methods'',
      ''Proper method documentation'']"
  by (simp add: init_def load_java_code_samples_def)

lemma catalog_weights:
  "evaluation_criteria init =
     \<lparr>correct_requirements = float_literal (5 / 10), identified_bugs = float_literal (4 / 10),
      code_improvements = float_literal (1 / 10)\<rparr>"
  by (simp add: init_def)

lemma division_in_key:
  "''Division with zero check'' \<in> set (expected_requirements (hd (code_samples init)))"
  by (simp add: catalog_hd_key)

lemma logging_not_in_key:
  "''Logging'' \<notin> set (expected_requirements (hd (code_samples init)))"
  by (simp add: catalog_hd_key)

lemma four_correct:
  "set [''Addition with overflow check'', ''Subtraction with underflow check'',
        ''Division with zero check'', ''Multiplication with overflow check'']
     \<subseteq> set (expected_requirements (hd (code_samples init)))"
  by (simp add: catalog_hd_key)

lemma catalog_difficulties: "map difficulty (code_samples init) = [''Easy'', ''Hard'']"
  by (simp add: init_def load_java_code_samples_def)

lemma lowered:
  "lower ''Easy'' = ''easy''"
  "lower ''Hard'' = ''hard''"
  "lower ''EASY'' = ''easy''"
  "lower ''nonexistent-level'' = ''nonexistent-level''"
  by code_simp+

lemma catalog_lowered:
  assumes "c \<in> set (code_samples init)"
  shows "lower (difficulty c) = ''easy'' \<or> lower (difficulty c) = ''hard''"
proof -
  obtain c1 c2 where s: "code_samples init = [c1, c2]" by (rule catalog_shape)
  have "difficulty c1 = ''Easy''" "difficulty c2 = ''Hard''"
    using catalog_difficulties by (simp_all add: s)
  then show ?thesis using assms by (auto simp: s lowered)
qed

lemma catalog_hd_lowered: "lower (difficulty (hd (code_samples init))) = ''easy''"
  using catalog_difficulties by (cases "code_samples init") (auto simp: lowered)

section \<open>Scores of particular submissions\<close>

text \<open>
  Four matching requirements with two bugs and one improvement; one correct requirement
  listed once, twice and fifteen times with nothing else.
\<close>

lemma score_4_2_1:
  assumes "c \<in> set (code_samples init)"
    and "set rs \<subseteq> set (expected_requirements c)"
    and "length rs = 4" "length bs = 2" "length is = 1"
  shows "evaluate_response init (id' c) rs bs is = Inr (float_literal (59 / 100))"
proof -
  have m: "req_matches c rs = 4" using req_matches_all[OF assms(2)] assms(3) by simp
  have r: "req_score c rs = Inr (binary64 (4 / 7))"
    using req_score_catalog[OF assms(1), of rs] assms(3) m by (simp add: sys_maxsize_def)
  have b: "bug_score bs = Inr (binary64 (2 / 3))"
    using bug_score_eq[of bs] assms(4) by (simp add: sys_maxsize_def two_thirds_below_one)
  have i: "imp_score is = Inr (binary64 (1 / 3))"
    using imp_score_eq[of "is"] assms(5) by (simp add: sys_maxsize_def one_third_below_one)
  show ?thesis
    using evaluate_response_catalog[OF assms(1) r b i] by (simp add: weighted_4_2_1)
qed

lemma score_4_2_1_calculator:
  "evaluate_response init 1
     [''Addition with overflow check'', ''Subtraction with underflow check'',
      ''Division with zero check'', ''Multiplication with overflow check'']
     [''b1'', ''b2''] [''i1''] = Inr (float_literal (59 / 100))"
  using score_4_2_1[OF catalog_hd four_correct, of "[''b1'', ''b2'']" "[''i1'']"]
  by (simp add: catalog_hd_id)

lemma score_repeated:
  assumes "c \<in> set (code_samples init)" "r \<in> set (expected_requirements c)"
  shows "evaluate_response init (id' c) [r] [] [] = Inr (float_literal (7 / 100))"
    and "evaluate_response init (id' c) [r, r] [] [] = Inr (float_literal (14 / 100))"
    and "evaluate_response init (id' c) (replicate 15 r) [] [] = Inr (float_literal (107 / 100))"
proof -
  have b: "bug_score [] = Inr 0"
    using bug_score_eq[of "[]"] by (simp add: binary64_zero)
  have i: "imp_score [] = Inr 0"
    using imp_score_eq[of "[]"] by (simp add: binary64_zero)
  have r1: "req_score c [r] = Inr (binary64 (1 / 7))"
    using req_score_catalog[OF assms(1), of "[r]"] assms(2)
    by (simp add: sys_maxsize_def req_matches_def)
  have r2: "req_score c [r, r] = Inr (binary64 (2 / 7))"
    using req_score_catalog[OF assms(1), of "[r, r]"] assms(2)
    by (simp add: sys_maxsize_def req_matches_def)
  have "length (replicate 15 r) \<le> sys_maxsize" by (simp add: sys_maxsize_def)
  moreover have "req_matches c (replicate 15 r) = 15"
    using assms(2) req_matches_all[of "replicate 15 r" c] by simp
  ultimately have r15: "req_score c (replicate 15 r) = Inr (binary64 (15 / 7))"
    using req_score_catalog[OF assms(1), of "replicate 15 r"] by simp
  show "evaluate_response init (id' c) [r] [] [] = Inr (float_literal (7 / 100))"
    using evaluate_response_catalog[OF assms(1) r1 b i] by (simp add: weighted_1_0_0)
  show "evaluate_response init (id' c) [r, r] [] [] = Inr (float_literal (14 / 100))"
    using evaluate_response_catalog[OF assms(1) r2 b i] by (simp add: weighted_2_0_0)
  show "evaluate_response init (id' c) (replicate 15 r) [] [] = Inr (float_literal (107 / 100))"
    using evaluate_response_catalog[OF assms(1) r15 b i] by (simp add: weighted_15_0_0)
qed

section \<open>Appending, saturation and selection\<close>

lemma req_score_mono:
  assumes "c \<in> set (code_samples init)" "length (rs @ [r]) \<le> sys_maxsize"
  shows "\<exists>a b. req_score c rs = Inr a \<and> req_score c (rs @ [r]) = Inr b \<and> a \<le> b"
proof -
  have l: "length rs \<le> sys_maxsize" using assms(2) by simp
  have "req_matches c rs \<le> req_matches c (rs @ [r])" by (simp add: req_matches_append)
  then have "(of_nat (req_matches c rs) :: rat) / 7 \<le> of_nat (req_matches c (rs @ [r])) / 7"
    by (simp only: divide_right_mono of_nat_le_iff zero_le_numeral)
  then have "binary64 (of_nat (req_matches c rs) / 7)
      \<le> binary64 (of_nat (req_matches c (rs @ [r])) / 7)"
    by (intro binary64_mono) simp_all
  then show ?thesis
    using req_score_catalog[OF assms(1) l] req_score_catalog[OF assms(1) assms(2)] by simp
qed

lemma absent_entry_ignored:
  assumes "r \<notin> set (expected_requirements c)"
  shows "req_score c (rs @ [r]) = req_score c rs"
  using assms by (simp add: req_score_def req_matches_append)

lemma absent_entry_ignored_total:
  assumes "c \<in> set (code_samples init)" "r \<notin> set (expected_requirements c)"
  shows "evaluate_response init (id' c) (rs @ [r]) bs is = evaluate_response init (id' c) rs bs is"
  by (simp add: evaluate_response_def catalog_find[OF assms(1)] absent_entry_ignored[OF assms(2)])

lemma score_saturates:
  assumes "length xs \<le> sys_maxsize" "3 \<le> length xs"
  shows "bug_score xs = Inr 1" and "imp_score xs = Inr 1"
  using bug_score_eq[OF assms(1)] imp_score_eq[OF assms(1)] saturated[OF assms(2)] by simp_all

lemma total_saturates:
  assumes "length xs \<le> sys_maxsize" "3 \<le> length xs"
  shows "evaluate_response self cid rs xs is = evaluate_response self cid rs (take 3 xs) is"
    and "evaluate_response self cid rs bs xs = evaluate_response self cid rs bs (take 3 xs)"
proof -
  have l: "length (take 3 xs) \<le> sys_maxsize" using assms(1) by simp
  have t: "3 \<le> length (take 3 xs)" using assms(2) by simp
  have b: "bug_score xs = Inr 1" and i: "imp_score xs = Inr 1"
    using score_saturates[OF assms] by simp_all
  have b': "bug_score (take 3 xs) = Inr 1" and i': "imp_score (take 3 xs) = Inr 1"
    using score_saturates[OF l t] by simp_all
  show "evaluate_response self cid rs xs is = evaluate_response self cid rs (take 3 xs) is"
    unfolding evaluate_response_def b b' by (rule refl)
  show "evaluate_response self cid rs bs xs = evaluate_response self cid rs bs (take 3 xs)"
    unfolding evaluate_response_def i i' by (rule refl)
qed

lemma random_choice_in:
  "xs \<noteq> [] \<Longrightarrow> \<exists>x. random_choice r xs = Inr x \<and> x \<in> set xs"
  by (simp add: random_choice_def)

section \<open>The claims\<close>

text \<open>
  C1, as stated: for every challenge of the catalog, listing the same correct requirement
  twice returns the same score as listing it once. The statement is false: for the
  Simple Calculator the requirement \<open>Division with zero check\<close> listed twice does not
  score what it scores listed once.
\<close>

theorem duplicate_requirement_counterexample:
  "evaluate_response init 1 [''Division with zero check'', ''Division with zero check''] [] []
     \<noteq> evaluate_response init 1 [''Division with zero check''] [] []"
  using score_repeated(1,2)[OF catalog_hd division_in_key] float_7_14
  by (simp add: catalog_hd_id)

text \<open>
  C1, amended: for every challenge of the catalog, every entry of the submitted
  requirement list that is in the answer key counts as one match, also when the same
  string was listed before: appending a correct requirement raises the count of matches
  by one whatever the list holds already. With nothing else submitted a correct
  requirement listed once scores \<open>0.07\<close> and listed twice \<open>0.14\<close>.
\<close>

theorem duplicate_requirement_counts_again:
  assumes "c \<in> set (code_samples init)" "r \<in> set (expected_requirements c)"
  shows "req_matches c (rs @ [r]) = req_matches c rs + 1
    \<and> evaluate_response init (id' c) [r] [] [] = Inr (float_literal (7 / 100))
    \<and> evaluate_response init (id' c) [r, r] [] [] = Inr (float_literal (14 / 100))"
  using score_repeated(1,2)[OF assms] assms(2) by (simp add: req_matches_append)

theorem duplicate_requirement_counts_again_witness:
  "hd (code_samples init) \<in> set (code_samples init)
    \<and> ''Division with zero check'' \<in> set (expected_requirements (hd (code_samples init)))
    \<and> req_matches (hd (code_samples init)) ([''Division with zero check''] @ [''Division with zero check''])
        = req_matches (hd (code_samples init)) [''Division with zero check''] + 1
    \<and> evaluate_response init 1 [''Division with zero check'', ''Division with zero check''] [] []
        = Inr (float_literal (14 / 100))"
  using duplicate_requirement_counts_again[OF catalog_hd division_in_key,
      of "[''Division with zero check'']"] catalog_hd division_in_key
  by (simp add: catalog_hd_id)

text \<open>
  C2. The claim bounds every result by \<open>1.0\<close>, as the docstring of the method does. The
  code at the requirement \<open>Division with zero check\<close> listed fifteen times, with no bugs
  and no improvements: fifteen matches over seven expected requirements, and the result
  \<open>1.07\<close>, which is above \<open>1.0\<close>.
\<close>

theorem fifteen_duplicates_score_above_one:
  "evaluate_response init 1 (replicate 15 ''Division with zero check'') [] []
     = Inr (float_literal (107 / 100))
   \<and> 1 < float_literal (107 / 100)"
  using score_repeated(3)[OF catalog_hd division_in_key] float_107
  by (simp add: catalog_hd_id)

text \<open>
  C3, as stated: for the Simple Calculator, four distinct correct requirements, two bugs
  and one improvement return exactly \<open>0.62\<close>. The statement is false at the first four
  requirements of the key.
\<close>

theorem calculator_scenario_counterexample:
  "evaluate_response init 1
     [''Addition with overflow check'', ''Subtraction with underflow check'',
      ''Division with zero check'', ''Multiplication with overflow check'']
     [''b1'', ''b2''] [''i1''] \<noteq> Inr (float_literal (62 / 100))"
  using float_59_62 by (simp add: score_4_2_1_calculator)

text \<open>
  C3, amended: for the Simple Calculator (seven expected requirements, the weights
  \<open>0.5\<close>, \<open>0.4\<close> and \<open>0.1\<close>), four distinct correct requirements, two bugs and one
  improvement return exactly \<open>0.59\<close>.
\<close>

theorem calculator_scenario_scores_059:
  assumes "c \<in> set (code_samples init)" "name c = ''Simple Calculator''"
    and "distinct rs" "set rs \<subseteq> set (expected_requirements c)"
    and "length rs = 4" "length bs = 2" "length is = 1"
  shows "length (expected_requirements c) = 7
    \<and> evaluation_criteria init =
        \<lparr>correct_requirements = float_literal (5 / 10), identified_bugs = float_literal (4 / 10),
         code_improvements = float_literal (1 / 10)\<rparr>
    \<and> evaluate_response init (id' c) rs bs is = Inr (float_literal (59 / 100))"
  using catalog_length[OF assms(1)] catalog_weights score_4_2_1[OF assms(1,4,5,6,7)]
  by simp

theorem calculator_scenario_scores_059_witness:
  "hd (code_samples init) \<in> set (code_samples init)
    \<and> name (hd (code_samples init)) = ''Simple Calculator''
    \<and> distinct [''Addition with overflow check'', ''Power function with validation'',
         ''Input validation for all methods'', ''Proper method documentation'']
    \<and> set [''Addition with overflow check'', ''Power function with validation'',
         ''Input validation for all methods'', ''Proper method documentation'']
        \<subseteq> set (expected_requirements (hd (code_samples init)))
    \<and> evaluate_response init 1
         [''Addition with overflow check'', ''Power function with validation'',
          ''Input validation for all methods'', ''Proper method documentation'']
         [''No overflow check'', ''Division by zero''] [''Add documentation'']
        = Inr (float_literal (59 / 100))"
proof -
  have d: "distinct [''Addition with overflow check'', ''Power function with validation'',
         ''Input validation for all methods'', ''Proper method documentation'']"
    by simp
  have s: "set [''Addition with overflow check'', ''Power function with validation'',
         ''Input validation for all methods'', ''Proper method documentation'']
        \<subseteq> set (expected_requirements (hd (code_samples init)))"
    by (simp add: catalog_hd_key)
  have "evaluate_response init 1
         [''Addition with overflow check'', ''Power function with validation'',
          ''Input validation for all methods'', ''Proper method documentation'']
         [''No overflow check'', ''Division by zero''] [''Add documentation'']
        = Inr (float_literal (59 / 100))"
    using calculator_scenario_scores_059[OF catalog_hd catalog_hd_name d s,
        of "[''No overflow check'', ''Division by zero'']" "[''Add documentation'']"]
    by (simp add: catalog_hd_id)
  then show ?thesis using catalog_hd catalog_hd_name d s by blast
qed

text \<open>
  C4. For every challenge of the catalog, appending an entry that is in the answer key
  does not lower the requirement sub-score, and appending an entry that is not in the key
  changes neither the sub-score nor the returned score. The lists are Python lists, no
  longer than \<open>sys.maxsize\<close>.
\<close>

theorem requirement_score_monotone:
  assumes "c \<in> set (code_samples init)"
    and "r \<in> set (expected_requirements c)" "r' \<notin> set (expected_requirements c)"
    and "length (rs @ [r]) \<le> sys_maxsize"
  shows "(\<exists>a b. req_score c rs = Inr a \<and> req_score c (rs @ [r]) = Inr b \<and> a \<le> b)
    \<and> req_score c (rs @ [r']) = req_score c rs
    \<and> evaluate_response init (id' c) (rs @ [r']) bs is = evaluate_response init (id' c) rs bs is"
  using req_score_mono[OF assms(1,4)] absent_entry_ignored[OF assms(3)]
    absent_entry_ignored_total[OF assms(1,3)] by simp

theorem requirement_score_monotone_witness:
  "hd (code_samples init) \<in> set (code_samples init)
   \<and> ''Division with zero check'' \<in> set (expected_requirements (hd (code_samples init)))
   \<and> ''Logging'' \<notin> set (expected_requirements (hd (code_samples init)))
   \<and> length ([''Power function with validation''] @ [''Division with zero check'']) \<le> sys_maxsize
   \<and> (\<exists>a b. req_score (hd (code_samples init)) [''Power function with validation''] = Inr a
         \<and> req_score (hd (code_samples init))
              [''Power function with validation'', ''Division with zero check''] = Inr b \<and> a \<le> b)
   \<and> evaluate_response init 1 [''Power function with validation'', ''Logging''] [''b1''] []
       = evaluate_response init 1 [''Power function with validation''] [''b1''] []"
proof -
  have l: "length ([''Power function with validation''] @ [''Division with zero check''])
      \<le> sys_maxsize"
    by (simp add: sys_maxsize_def)
  show ?thesis
    using requirement_score_monotone[OF catalog_hd division_in_key logging_not_in_key l,
        of "[''b1'']" "[]"]
      catalog_hd division_in_key logging_not_in_key l
    by (simp add: catalog_hd_id)
qed

text \<open>
  C5. The bug sub-score and the improvement sub-score of a list are the smaller of
  \<open>1.0\<close> and the length of the list divided by three, whatever the entries are: two
  entries give the float \<open>2/3\<close>, and three or more give exactly \<open>1.0\<close>, so that the
  returned score is the one of the first three entries alone. The lists are Python
  lists, no longer than \<open>sys.maxsize\<close>.
\<close>

theorem bug_and_improvement_scores_saturate:
  assumes "length xs \<le> sys_maxsize"
  shows "bug_score xs = Inr (min 1 (binary64 (of_nat (length xs) / 3)))
    \<and> imp_score xs = Inr (min 1 (binary64 (of_nat (length xs) / 3)))
    \<and> (length xs = 2 \<longrightarrow>
          bug_score xs = Inr (binary64 (2 / 3)) \<and> imp_score xs = Inr (binary64 (2 / 3)))
    \<and> (3 \<le> length xs \<longrightarrow>
          bug_score xs = Inr 1 \<and> imp_score xs = Inr 1
          \<and> evaluate_response self cid rs xs is = evaluate_response self cid rs (take 3 xs) is
          \<and> evaluate_response self cid rs bs xs = evaluate_response self cid rs bs (take 3 xs))"
proof -
  have "bug_score xs = Inr (binary64 (2 / 3)) \<and> imp_score xs = Inr (binary64 (2 / 3))"
    if "length xs = 2"
    using that bug_score_eq[OF assms] imp_score_eq[OF assms] by (simp add: two_thirds_below_one)
  then show ?thesis
    using bug_score_eq[OF assms] imp_score_eq[OF assms] score_saturates[OF assms]
      total_saturates(1)[OF assms, of self cid rs "is"]
      total_saturates(2)[OF assms, of self cid rs bs]
    by simp
qed

theorem bug_and_improvement_scores_saturate_witness:
  "length [''a'', ''b''] \<le> sys_maxsize \<and> length [''a'', ''b''] = 2
   \<and> bug_score [''a'', ''b''] = Inr (binary64 (2 / 3))
   \<and> length [''a'', ''b'', ''c'', ''d'', ''e''] \<le> sys_maxsize
   \<and> 3 \<le> length [''a'', ''b'', ''c'', ''d'', ''e'']
   \<and> bug_score [''a'', ''b'', ''c'', ''d'', ''e''] = Inr 1
   \<and> bug_score [''a'', ''b'', ''c''] = Inr 1
   \<and> evaluate_response init 1 [] [''a'', ''b'', ''c'', ''d'', ''e''] []
       = evaluate_response init 1 [] [''a'', ''b'', ''c''] []"
proof -
  have l2: "length [''a'', ''b''] \<le> sys_maxsize"
    and l5: "length [''a'', ''b'', ''c'', ''d'', ''e''] \<le> sys_maxsize"
    and l3: "length [''a'', ''b'', ''c''] \<le> sys_maxsize"
    by (simp_all add: sys_maxsize_def)
  have n2: "length [''a'', ''b''] = 2"
    and n5: "3 \<le> length [''a'', ''b'', ''c'', ''d'', ''e'']"
    and n3: "3 \<le> length [''a'', ''b'', ''c'']"
    by simp_all
  have "bug_score [''a'', ''b''] = Inr (binary64 (2 / 3))"
    using bug_and_improvement_scores_saturate[OF l2] n2 by blast
  moreover have "bug_score [''a'', ''b'', ''c'', ''d'', ''e''] = Inr 1"
    using bug_and_improvement_scores_saturate[OF l5] n5 by blast
  moreover have "bug_score [''a'', ''b'', ''c''] = Inr 1"
    using bug_and_improvement_scores_saturate[OF l3] n3 by blast
  moreover have "evaluate_response init 1 [] [''a'', ''b'', ''c'', ''d'', ''e''] []
       = evaluate_response init 1 [] (take 3 [''a'', ''b'', ''c'', ''d'', ''e'']) []"
    using bug_and_improvement_scores_saturate[OF l5, of init 1 "[]" "[]"] n5 by blast
  ultimately show ?thesis using l2 l5 by simp
qed

text \<open>
  C6. For every challenge \<open>c\<close> of the catalog, \<open>evaluate_response\<close> on three empty
  lists returns exactly \<open>0.0\<close>: each empty list gives the sub-score 0 of its
  component, and nothing is raised.
\<close>

theorem empty_submission_scores_zero:
  assumes "c \<in> set (code_samples init)"
  shows "evaluate_response init (id' c) [] [] [] = Inr 0
    \<and> req_score c [] = Inr 0 \<and> bug_score [] = Inr 0 \<and> imp_score [] = Inr 0"
proof -
  have r: "req_score c [] = Inr 0"
    using req_score_catalog[OF assms, of "[]"] by (simp add: req_matches_Nil binary64_zero)
  have b: "bug_score [] = Inr 0"
    using bug_score_eq[of "[]"] by (simp add: binary64_zero)
  have i: "imp_score [] = Inr 0"
    using imp_score_eq[of "[]"] by (simp add: binary64_zero)
  show ?thesis
    using evaluate_response_catalog[OF assms r b i] r b i by (simp add: weighted_zero)
qed

theorem empty_submission_scores_zero_witness:
  "hd (code_samples init) \<in> set (code_samples init)
    \<and> evaluate_response init 1 [] [] [] = Inr 0"
  using empty_submission_scores_zero[OF catalog_hd] catalog_hd
  by (simp add: catalog_hd_id)

text \<open>
  C7. For every challenge \<open>c\<close> of the catalog, \<open>evaluate_response\<close> returns exactly
  \<open>1.0\<close> for the list of expected requirements of \<open>c\<close>, three bugs and three
  improvements.
\<close>

theorem full_submission_scores_one:
  assumes "c \<in> set (code_samples init)" "length bs = 3" "length is = 3"
  shows "evaluate_response init (id' c) (expected_requirements c) bs is = Inr 1"
proof -
  have len: "length (expected_requirements c) = 7" by (rule catalog_length[OF assms(1)])
  have m: "req_matches c (expected_requirements c) = 7"
    using req_matches_all[of "expected_requirements c" c] len by simp
  have r: "req_score c (expected_requirements c) = Inr 1"
    using req_score_catalog[OF assms(1), of "expected_requirements c"] len m
    by (simp add: sys_maxsize_def binary64_one)
  have b: "bug_score bs = Inr 1"
    using bug_score_eq[of bs] assms(2) by (simp add: sys_maxsize_def binary64_one)
  have i: "imp_score is = Inr 1"
    using imp_score_eq[of "is"] assms(3) by (simp add: sys_maxsize_def binary64_one)
  show ?thesis
    using evaluate_response_catalog[OF assms(1) r b i] by (simp add: weighted_full)
qed

theorem full_submission_scores_one_witness:
  "hd (code_samples init) \<in> set (code_samples init)
    \<and> length [''b1'', ''b2'', ''b3''] = 3 \<and> length [''i1'', ''i2'', ''i3''] = 3
    \<and> evaluate_response init 1 (expected_requirements (hd (code_samples init)))
        [''b1'', ''b2'', ''b3''] [''i1'', ''i2'', ''i3''] = Inr 1"
  using full_submission_scores_one[OF catalog_hd,
      of "[''b1'', ''b2'', ''b3'']" "[''i1'', ''i2'', ''i3'']"] catalog_hd
  by (simp add: catalog_hd_id)

text \<open>
  C8. For every difficulty string and every draw of the random generator,
  \<open>get_challenge_by_difficulty\<close> raises nothing and either returns \<open>None\<close>, when no
  sample of the catalog has that difficulty up to case, or returns a sample of the
  catalog whose difficulty equals the argument up to case.
\<close>

theorem get_challenge_by_difficulty_sound:
  "(get_challenge_by_difficulty self r d = Inr None
      \<and> (\<forall>c \<in> set (code_samples self). lower (difficulty c) \<noteq> lower d))
   \<or> (\<exists>c. get_challenge_by_difficulty self r d = Inr (Some c)
         \<and> c \<in> set (code_samples self) \<and> lower (difficulty c) = lower d)"
proof (cases "filter (\<lambda>c. lower (difficulty c) = lower d) (code_samples self) = []")
  case True
  then show ?thesis by (auto simp: get_challenge_by_difficulty_def filter_empty_conv)
next
  case False
  from random_choice_in[OF this, of r] obtain x
    where "random_choice r (filter (\<lambda>c. lower (difficulty c) = lower d) (code_samples self)) = Inr x"
      and "x \<in> set (filter (\<lambda>c. lower (difficulty c) = lower d) (code_samples self))"
    by blast
  then show ?thesis using False by (simp add: get_challenge_by_difficulty_def)
qed

theorem get_challenge_by_difficulty_sound_witness:
  "(\<exists>c. get_challenge_by_difficulty init 5 ''EASY'' = Inr (Some c)
        \<and> c \<in> set (code_samples init) \<and> lower (difficulty c) = lower ''EASY'')
   \<and> get_challenge_by_difficulty init 5 ''nonexistent-level'' = Inr None"
proof -
  have "\<not> (\<forall>c \<in> set (code_samples init). lower (difficulty c) \<noteq> lower ''EASY'')"
    using catalog_hd catalog_hd_lowered by (auto simp: lowered)
  then have easy: "\<exists>c. get_challenge_by_difficulty init 5 ''EASY'' = Inr (Some c)
        \<and> c \<in> set (code_samples init) \<and> lower (difficulty c) = lower ''EASY''"
    using get_challenge_by_difficulty_sound[of init 5 "''EASY''"] by blast
  have "lower (difficulty c) \<noteq> lower ''nonexistent-level''"
    if "c \<in> set (code_samples init)" for c
    using catalog_lowered[OF that] by (auto simp: lowered)
  then have "\<not> (\<exists>c. c \<in> set (code_samples init)
      \<and> lower (difficulty c) = lower ''nonexistent-level'')"
    by blast
  then have "get_challenge_by_difficulty init 5 ''nonexistent-level'' = Inr None"
    using get_challenge_by_difficulty_sound[of init 5 "''nonexistent-level''"] by blast
  then show ?thesis using easy by simp
qed

text \<open>
  C9. The catalog built at construction satisfies the invariant of the data model: the
  list of expected requirements of every sample is non-empty, so the divisor of the
  requirement sub-score is not zero, and no two samples share an id.
\<close>

theorem catalog_invariant:
  "(\<forall>c \<in> set (code_samples init). expected_requirements c \<noteq> [])
    \<and> distinct (map id' (code_samples init))"
proof -
  have "expected_requirements c \<noteq> []" if "c \<in> set (code_samples init)" for c
    using catalog_length[OF that] by auto
  then show ?thesis by (simp add: catalog_ids)
qed

theorem catalog_invariant_witness:
  "hd (code_samples init) \<in> set (code_samples init)
    \<and> expected_requirements (hd (code_samples init)) \<noteq> []
    \<and> load_java_code_samples = code_samples init"
  using catalog_invariant catalog_hd by (simp add: init_def)

text \<open>
  C10. The result of \<open>evaluate_response\<close> does not depend on the order of the entries:
  for every challenge id, permuting the requirements, the bugs or the improvements
  leaves the result unchanged, a raised exception included.
\<close>

theorem evaluate_response_permutation_invariant:
  assumes "mset rs = mset rs'" "mset bs = mset bs'" "mset is = mset is'"
  shows "evaluate_response self cid rs bs is = evaluate_response self cid rs' bs' is'"
proof -
  have r: "req_score c rs = req_score c rs'" for c
    by (simp add: req_score_def req_matches_mset[OF assms(1)])
  have b: "bug_score bs = bug_score bs'"
    by (simp add: bug_score_def mset_eq_length[OF assms(2)])
  have i: "imp_score is = imp_score is'"
    by (simp add: imp_score_def mset_eq_length[OF assms(3)])
  show ?thesis unfolding evaluate_response_def r b i by (rule refl)
qed

theorem evaluate_response_permutation_invariant_witness:
  "mset [''x'', ''Division with zero check''] = mset [''Division with zero check'', ''x'']
   \<and> mset [''b1'', ''b2''] = mset [''b2'', ''b1''] \<and> mset [''i1''] = mset [''i1'']
   \<and> evaluate_response init 1 [''x'', ''Division with zero check''] [''b1'', ''b2''] [''i1'']
     = evaluate_response init 1 [''Division with zero check'', ''x''] [''b2'', ''b1''] [''i1'']"
proof -
  have r: "mset [''x'', ''Division with zero check''] = mset [''Division with zero check'', ''x'']"
    and b: "mset [''b1'', ''b2''] = mset [''b2'', ''b1'']" and i: "mset [''i1''] = mset [''i1'']"
    by simp_all
  show ?thesis
    using evaluate_response_permutation_invariant[OF r b i, of init 1] r b i by simp
qed

end
